theory Spec2Isabelle
  imports Main "HOL-Library.Char_ord" "HOL-Library.List_Lexorder"
begin

section \<open>The property store of mxprops/mxprops.h\<close>

text \<open>
  The store \<open>PTree\<close> owns one \<open>std::map<std::string, Record>\<close>. The map is modelled as
  the list of its entries in iteration order, that is, in strictly ascending key order.
  \<open>std::string\<close> compares bytes as unsigned values and a proper prefix is smaller, which is
  the order of \<open>char list\<close> given by \<open>Char_ord\<close> and \<open>List_Lexorder\<close>.

  The lock of the store guards every single call; the model is the sequential behaviour of
  each call, with the store passed in and returned.
\<close>

subsection \<open>Errors\<close>

text \<open>
  \<open>PropsError(propertyName, msg)\<close> is a \<open>std::runtime_error\<close> whose message is
  \<open>msg + propertyName\<close>, and which keeps \<open>propertyName\<close>. \<open>out_of_range\<close> is what
  \<open>std::string::substr\<close> throws for a start position behind the end.
\<close>

datatype error =
    PropsErr (getPropertyName: string) (what: string)
  | out_of_range

definition PropsError :: "string \<Rightarrow> string \<Rightarrow> error" where
  "PropsError propertyName msg = PropsErr propertyName (msg @ propertyName)"

subsection \<open>String operations\<close>

text \<open>\<open>p.find(c)\<close>: the first position of \<open>c\<close>, \<open>None\<close> for \<open>npos\<close>.\<close>

fun find_char :: "string \<Rightarrow> char \<Rightarrow> nat option" where
  "find_char [] c = None"
| "find_char (x # xs) c = (if x = c then Some 0 else map_option Suc (find_char xs c))"

text \<open>\<open>s.substr(pos)\<close> throws when \<open>pos > s.size()\<close>.\<close>

definition substr :: "string \<Rightarrow> nat \<Rightarrow> error + string" where
  "substr s pos = (if pos > length s then Inl out_of_range else Inr (drop pos s))"

text \<open>\<open>boost::starts_with(input, test)\<close>: \<open>test\<close> is a prefix of \<open>input\<close>.\<close>

fun starts_with :: "string \<Rightarrow> string \<Rightarrow> bool" where
  "starts_with input [] = True"
| "starts_with [] (t # ts) = False"
| "starts_with (c # cs) (t # ts) = (c = t \<and> starts_with cs ts)"

subsection \<open>The typed codec\<close>

text \<open>
  \<open>boost::property_tree::translator_between<std::string, TData>::type\<close> is resolved per
  type by the caller; it is a parameter here: \<open>put_value\<close> encodes, \<open>get_value\<close> decodes,
  and both may fail.
\<close>

record 'a Tr =
  put_value :: "'a \<Rightarrow> string option"
  get_value :: "string \<Rightarrow> 'a option"

definition get_value_or :: "'a option \<Rightarrow> 'a \<Rightarrow> 'a" where
  "get_value_or opt d = (case opt of None \<Rightarrow> d | Some x \<Rightarrow> x)"

subsection \<open>Record\<close>

text \<open>
  \<open>PathPropData\<close> is declared in mxprops/pathprop.h, which is not among the sources: it
  is the type parameter \<open>'pd\<close>, and its default-constructed value is the parameter
  \<open>pd0\<close> of every function that constructs a \<open>Record\<close>. The field \<open>value\<close> of the
  source is \<open>rvalue\<close> here.
\<close>

record 'pd Record =
  rvalue :: string
  defined :: bool
  pathData :: 'pd

definition Record_new :: "'pd \<Rightarrow> 'pd Record" where
  "Record_new pd0 = \<lparr>rvalue = [], defined = False, pathData = pd0\<rparr>"

definition getValue :: "'pd Record \<Rightarrow> string" where
  "getValue r = rvalue r"

definition setValue :: "string \<Rightarrow> 'pd Record \<Rightarrow> 'pd Record" where
  "setValue v r = r\<lparr>rvalue := v, defined := True\<rparr>"

definition setValue_pd :: "string \<Rightarrow> 'pd \<Rightarrow> 'pd Record \<Rightarrow> 'pd Record" where
  "setValue_pd v pd r = (setValue v r)\<lparr>pathData := pd\<rparr>"

definition isDefined :: "'pd Record \<Rightarrow> bool" where
  "isDefined r = defined r"

text \<open>
  \<open>get_as<TData>(bool *getDefined = 0)\<close>: the pointer is \<open>None\<close> when null and
  \<open>Some b\<close> when it points to a \<open>bool\<close> holding \<open>b\<close>; the second component of the
  result is what it points to afterwards.
\<close>

definition get_as :: "'a Tr \<Rightarrow> bool option \<Rightarrow> 'pd Record \<Rightarrow> 'a option \<times> bool option" where
  "get_as tr getDefined r =
     (let getDefined' = (case getDefined of None \<Rightarrow> None | Some b \<Rightarrow> Some (defined r))
      in if \<not> defined r then (None, getDefined')
         else (get_value tr (rvalue r), getDefined'))"

definition set_as :: "'a Tr \<Rightarrow> 'a \<Rightarrow> 'pd Record \<Rightarrow> 'pd Record" where
  "set_as tr d r =
     (let strTranslated = put_value tr d
      in r\<lparr>defined := (strTranslated \<noteq> None),
           rvalue := get_value_or strTranslated ''<invalid>''\<rparr>)"

definition undefine :: "'pd Record \<Rightarrow> 'pd Record" where
  "undefine r = r\<lparr>defined := False\<rparr>"

definition getPathData :: "'pd Record \<Rightarrow> 'pd" where
  "getPathData r = pathData r"

subsection \<open>PTree: paths and the table\<close>

definition joinPaths :: "string \<Rightarrow> string \<Rightarrow> string" where
  "joinPaths p1 p2 = (if p1 = [] then p2 else if p2 = [] then p1 else p1 @ ''.'' @ p2)"

definition isSimplePath :: "string \<Rightarrow> bool" where
  "isSimplePath p = (p \<noteq> [] \<and> find_char p CHR ''.'' = None)"

text \<open>\<open>p.substr(0, pos)\<close> starts at position 0, which is never behind the end.\<close>

definition splitFirst :: "string \<Rightarrow> string" where
  "splitFirst p = (case find_char p CHR ''.'' of None \<Rightarrow> p | Some pos \<Rightarrow> take pos p)"

type_synonym 'pd propmap_t = "(string \<times> 'pd Record) list"

record 'pd PTree =
  propMap :: "'pd propmap_t"

definition PTree_new :: "'pd PTree" where
  "PTree_new = \<lparr>propMap = []\<rparr>"

definition clear :: "'pd PTree \<Rightarrow> 'pd PTree" where
  "clear t = t\<lparr>propMap := []\<rparr>"

text \<open>The entries of a \<open>std::map\<close> are in strictly ascending key order.\<close>

definition propmap_ok :: "'pd propmap_t \<Rightarrow> bool" where
  "propmap_ok pm = sorted_wrt (<) (map fst pm)"

definition PTree_ok :: "'pd PTree \<Rightarrow> bool" where
  "PTree_ok t = propmap_ok (propMap t)"

text \<open>\<open>pm.find(k)\<close>, as the record found.\<close>

definition map_find :: "'pd propmap_t \<Rightarrow> string \<Rightarrow> 'pd Record option" where
  "map_find pm k = map_of pm k"

text \<open>Insertion of a new key at its place in the order.\<close>

fun map_insert :: "string \<Rightarrow> 'pd Record \<Rightarrow> 'pd propmap_t \<Rightarrow> 'pd propmap_t" where
  "map_insert k r [] = [(k, r)]"
| "map_insert k r ((k', r') # pm) =
     (if k < k' then (k, r) # (k', r') # pm else (k', r') # map_insert k r pm)"

text \<open>Assignment to the record of an existing key, through a reference to it.\<close>

fun map_assign :: "string \<Rightarrow> 'pd Record \<Rightarrow> 'pd propmap_t \<Rightarrow> 'pd propmap_t" where
  "map_assign k r [] = []"
| "map_assign k r ((k', r') # pm) =
     (if k' = k then (k', r) # pm else (k', r') # map_assign k r pm)"

text \<open>
  \<open>propMap[path]\<close>: a key that is not in the map is inserted with a default-constructed
  record. The result is the map afterwards; the reference returned is to the record at
  \<open>path\<close> in it.
\<close>

definition map_index :: "'pd \<Rightarrow> string \<Rightarrow> 'pd propmap_t \<Rightarrow> 'pd propmap_t" where
  "map_index pd0 path pm =
     (case map_find pm path of
        None \<Rightarrow> map_insert path (Record_new pd0) pm
      | Some r \<Rightarrow> pm)"

text \<open>\<open>pm.lower_bound(k)\<close>: the entries from the first key that is not less than \<open>k\<close>.\<close>

definition lower_bound :: "string \<Rightarrow> 'pd propmap_t \<Rightarrow> 'pd propmap_t" where
  "lower_bound k pm = dropWhile (\<lambda>e. fst e < k) pm"

text \<open>
  \<open>PTree::getRecord(path)\<close> returns a reference to \<open>propMap[path]\<close>: the record read
  through it, and the store afterwards. \<open>PTree_putRecord\<close> is the write through that
  reference.
\<close>

definition PTree_getRecord :: "'pd \<Rightarrow> string \<Rightarrow> 'pd PTree \<Rightarrow> 'pd Record \<times> 'pd PTree" where
  "PTree_getRecord pd0 path t =
     (let pm = map_index pd0 path (propMap t)
      in (case map_find pm path of None \<Rightarrow> Record_new pd0 | Some r \<Rightarrow> r,
          t\<lparr>propMap := pm\<rparr>))"

definition PTree_putRecord :: "string \<Rightarrow> 'pd Record \<Rightarrow> 'pd PTree \<Rightarrow> 'pd PTree" where
  "PTree_putRecord path r t = t\<lparr>propMap := map_assign path r (propMap t)\<rparr>"

subsection \<open>Views\<close>

text \<open>
  A view holds the pointer to its store and two strings. The views modelled are the ones
  made by \<open>root\<close> and derived from it, whose \<open>owner\<close> is the store that is passed to each
  operation. \<open>Ref\<close> derives from \<open>ConstRef\<close> and adds no field.
\<close>

record ConstRef =
  selfPath :: string
  selfId :: string

type_synonym Ref = ConstRef

definition root :: "string \<Rightarrow> Ref" where
  "root ident = \<lparr>selfPath = [], selfId = ident\<rparr>"

definition getSelfPath :: "ConstRef \<Rightarrow> string" where
  "getSelfPath v = selfPath v"

definition getPath :: "ConstRef \<Rightarrow> string" where
  "getPath v = selfPath v"

definition getId :: "ConstRef \<Rightarrow> string" where
  "getId v = selfId v"

definition getSubtreeImpl :: "ConstRef \<Rightarrow> string \<Rightarrow> ConstRef" where
  "getSubtreeImpl v path = \<lparr>selfPath = joinPaths (selfPath v) path, selfId = selfId v\<rparr>"

definition getSubtree :: "ConstRef \<Rightarrow> string \<Rightarrow> ConstRef" where
  "getSubtree v path = getSubtreeImpl v path"

definition getSubtreeForSubId :: "ConstRef \<Rightarrow> string \<Rightarrow> string \<Rightarrow> ConstRef" where
  "getSubtreeForSubId v path subId = (getSubtree v path)\<lparr>selfId := joinPaths (selfId v) subId\<rparr>"

definition reIDfy :: "ConstRef \<Rightarrow> string \<Rightarrow> ConstRef" where
  "reIDfy v subId = v\<lparr>selfId := joinPaths (selfId v) subId\<rparr>"

text \<open>
  \<open>ConstRef::getRecord(path)\<close> returns a copy of the record at the joined path. It goes
  through \<open>PTree::getRecord\<close>, so it changes the store when the path is new.
\<close>

definition ConstRef_getRecord ::
    "'pd \<Rightarrow> ConstRef \<Rightarrow> string \<Rightarrow> 'pd PTree \<Rightarrow> 'pd Record \<times> 'pd PTree" where
  "ConstRef_getRecord pd0 v path t = PTree_getRecord pd0 (joinPaths (selfPath v) path) t"

text \<open>\<open>get<TData>(path, defaultValue)\<close>.\<close>

definition get_default ::
    "'pd \<Rightarrow> 'a Tr \<Rightarrow> ConstRef \<Rightarrow> string \<Rightarrow> 'a \<Rightarrow> 'pd PTree \<Rightarrow> 'a \<times> 'pd PTree" where
  "get_default pd0 tr v path defaultValue t =
     (let (r, t') = ConstRef_getRecord pd0 v path t
      in (get_value_or (fst (get_as tr None r)) defaultValue, t'))"

text \<open>\<open>getOptional<TData>(path, getDefined)\<close>.\<close>

definition getOptional ::
    "'pd \<Rightarrow> 'a Tr \<Rightarrow> ConstRef \<Rightarrow> string \<Rightarrow> bool option \<Rightarrow> 'pd PTree
       \<Rightarrow> ('a option \<times> bool option) \<times> 'pd PTree" where
  "getOptional pd0 tr v path getDefined t =
     (let (r, t') = ConstRef_getRecord pd0 v path t
      in (get_as tr getDefined r, t'))"

text \<open>
  \<open>get<TData>(path)\<close>: the local \<open>isDefined\<close> starts as \<open>false\<close> and is passed by
  address; the exception is the \<open>Inl\<close> result.
\<close>

definition get :: "'pd \<Rightarrow> 'a Tr \<Rightarrow> ConstRef \<Rightarrow> string \<Rightarrow> 'pd PTree \<Rightarrow> (error + 'a) \<times> 'pd PTree" where
  "get pd0 tr v path t =
     (let ((val, getDefined), t') = getOptional pd0 tr v path (Some False) t;
          isDefined = (case getDefined of None \<Rightarrow> False | Some b \<Rightarrow> b)
      in case val of
           None \<Rightarrow>
             (Inl (PropsError (getSelfPath v @ ''.'' @ path)
                     (if isDefined then ''Bad format '' else ''Undefined property: '')), t')
         | Some x \<Rightarrow> (Inr x, t'))"

text \<open>The two loops of \<open>listKeysRecursive\<close>, over the entries from the iterator on.\<close>

fun scan_all :: "bool \<Rightarrow> 'pd propmap_t \<Rightarrow> string list \<Rightarrow> string list" where
  "scan_all withUndefined [] result = result"
| "scan_all withUndefined (e # it) result =
     scan_all withUndefined it
       (if withUndefined \<or> isDefined (snd e) then result @ [fst e] else result)"

fun scan_prefix :: "string \<Rightarrow> bool \<Rightarrow> 'pd propmap_t \<Rightarrow> string list \<Rightarrow> error + string list" where
  "scan_prefix P withUndefined [] result = Inr result"
| "scan_prefix P withUndefined (e # it) result =
     (if starts_with (fst e) P then
        (if withUndefined \<or> isDefined (snd e) then
           (if P = fst e then scan_prefix P withUndefined it (result @ [[]])
            else case substr (fst e) (length P + 1) of
                   Inl err \<Rightarrow> Inl err
                 | Inr s \<Rightarrow> scan_prefix P withUndefined it (result @ [s]))
         else scan_prefix P withUndefined it result)
      else Inr result)"

definition listKeysRecursive ::
    "ConstRef \<Rightarrow> string list \<Rightarrow> bool \<Rightarrow> 'pd PTree \<Rightarrow> error + string list" where
  "listKeysRecursive v result withUndefined t =
     (let it = lower_bound (selfPath v) (propMap t)
      in if selfPath v = [] then Inr (scan_all withUndefined it result)
         else scan_prefix (selfPath v) withUndefined it result)"

text \<open>The loop of \<open>listKeys\<close> over \<open>allKeys\<close>, with \<open>prevKey\<close> and \<open>result\<close>.\<close>

fun listKeys_loop :: "string list \<Rightarrow> string \<Rightarrow> string list \<Rightarrow> string list" where
  "listKeys_loop [] prevKey result = result"
| "listKeys_loop (a # allKeys) prevKey result =
     (let k = splitFirst a
      in if k \<noteq> prevKey then listKeys_loop allKeys k (result @ [k])
         else listKeys_loop allKeys prevKey result)"

definition listKeys ::
    "ConstRef \<Rightarrow> string list \<Rightarrow> bool \<Rightarrow> 'pd PTree \<Rightarrow> error + string list" where
  "listKeys v result withUndefined t =
     (case listKeysRecursive v [] withUndefined t of
        Inl err \<Rightarrow> Inl err
      | Inr allKeys \<Rightarrow> Inr (listKeys_loop allKeys [] result))"

text \<open>The operations of the write view \<open>Ref\<close>.\<close>

definition setRecord :: "'pd \<Rightarrow> Ref \<Rightarrow> string \<Rightarrow> 'pd Record \<Rightarrow> 'pd PTree \<Rightarrow> 'pd PTree" where
  "setRecord pd0 v path r t =
     (let key = joinPaths (selfPath v) path;
          (old, t') = PTree_getRecord pd0 key t
      in PTree_putRecord key r t')"

definition Ref_set :: "'pd \<Rightarrow> 'a Tr \<Rightarrow> Ref \<Rightarrow> string \<Rightarrow> 'a \<Rightarrow> 'pd PTree \<Rightarrow> 'pd PTree" where
  "Ref_set pd0 tr v path val t =
     (let key = joinPaths (selfPath v) path;
          (r, t') = PTree_getRecord pd0 key t
      in PTree_putRecord key (set_as tr val r) t')"

definition Ref_undefine :: "'pd \<Rightarrow> Ref \<Rightarrow> string \<Rightarrow> 'pd PTree \<Rightarrow> 'pd PTree" where
  "Ref_undefine pd0 v path t =
     (let key = joinPaths (selfPath v) path;
          (r, t') = PTree_getRecord pd0 key t
      in PTree_putRecord key (undefine r) t')"

definition Ref_setValue :: "'pd \<Rightarrow> 'a Tr \<Rightarrow> Ref \<Rightarrow> 'a \<Rightarrow> 'pd PTree \<Rightarrow> 'pd PTree" where
  "Ref_setValue pd0 tr v val t =
     (let (r, t') = PTree_getRecord pd0 (selfPath v) t
      in PTree_putRecord (selfPath v) (set_as tr val r) t')"

subsection \<open>Two codecs for concrete instances\<close>

text \<open>
  The translator between \<open>std::string\<close> and itself, which never fails, and a
  translator whose \<open>put_value\<close> fails on every value.
\<close>

definition string_tr :: "string Tr" where
  "string_tr = \<lparr>put_value = Some, get_value = Some\<rparr>"

definition failing_tr :: "string Tr" where
  "failing_tr = \<lparr>put_value = (\<lambda>d. None), get_value = Some\<rparr>"

section \<open>Strings and their order\<close>

lemma starts_with_iff: "starts_with s p \<longleftrightarrow> (\<exists>t. s = p @ t)"
  by (induction s p rule: starts_with.induct) auto

lemma starts_with_append [simp]: "starts_with (p @ t) p"
  by (simp add: starts_with_iff)

lemma starts_with_self [simp]: "starts_with p p"
  by (simp add: starts_with_iff)

lemma not_append_less: "\<not> p @ s < (p :: 'a :: linorder list)"
  by (induction p) auto

lemma le_append: "(p :: 'a :: linorder list) \<le> p @ s"
  by (induction p) auto

lemma starts_with_ge: "starts_with k p \<Longrightarrow> \<not> k < p"
  by (auto simp: starts_with_iff not_append_less)

lemma between_prefix:
  "(p :: string) \<le> e \<Longrightarrow> e \<le> k \<Longrightarrow> starts_with k p \<Longrightarrow> starts_with e p"
proof (induction p arbitrary: e k)
  case Nil
  then show ?case by simp
next
  case (Cons a p)
  from Cons.prems(3) obtain k' where k: "k = a # k'" and sk: "starts_with k' p"
    by (cases k) auto
  from Cons.prems(1) obtain b e' where e: "e = b # e'"
    by (cases e) auto
  from Cons.prems(1,2) e k have "a = b" "p \<le> e'" "e' \<le> k'"
    by auto
  with Cons.IH [OF _ _ sk] e show ?case by simp
qed

lemma scan_all_eq:
  "scan_all wu it result = result @ map fst (filter (\<lambda>e. wu \<or> defined (snd e)) it)"
  by (induction it arbitrary: result) (auto simp: isDefined_def)

lemma substr_after_prefix:
  "starts_with k P \<Longrightarrow> P \<noteq> k \<Longrightarrow> substr k (length P + 1) = Inr (drop (length P + 1) k)"
  by (auto simp: starts_with_iff substr_def)

lemma scan_prefix_eq:
  "scan_prefix P wu it result =
     Inr (result @ map (\<lambda>e. drop (length P + 1) (fst e))
            (filter (\<lambda>e. wu \<or> defined (snd e)) (takeWhile (\<lambda>e. starts_with (fst e) P) it)))"
proof (induction it arbitrary: result wu)
  case Nil
  then show ?case by simp
next
  case (Cons e it)
  show ?case
  proof (cases "starts_with (fst e) P")
    case False
    then show ?thesis by simp
  next
    case sw: True
    show ?thesis
    proof (cases "fst e = P")
      case True
      with sw show ?thesis by (simp add: Cons.IH isDefined_def)
    next
      case False
      then have ne: "P \<noteq> fst e" by auto
      with sw substr_after_prefix [OF sw ne] show ?thesis
        by (simp add: Cons.IH isDefined_def)
    qed
  qed
qed

lemma prefix_range:
  "sorted_wrt (<) (map fst pm) \<Longrightarrow>
   takeWhile (\<lambda>e. starts_with (fst e) P) (dropWhile (\<lambda>e. fst e < P) pm) =
   filter (\<lambda>e. starts_with (fst e) P) (pm :: (string \<times> 'b) list)"
proof (induction pm)
  case Nil
  then show ?case by simp
next
  case (Cons e pm)
  from Cons.prems have srt: "sorted_wrt (<) (map fst pm)"
    and gt: "\<forall>x \<in> set pm. fst e < fst x" by auto
  show ?case
  proof (cases "fst e < P")
    case True
    with starts_with_ge [of "fst e" P] Cons.IH [OF srt] show ?thesis by auto
  next
    case False
    then have ge: "P \<le> fst e" by simp
    have nodrop: "dropWhile (\<lambda>x. fst x < P) pm = pm"
    proof (cases pm)
      case Nil then show ?thesis by simp
    next
      case (Cons x xs)
      with gt ge have "\<not> fst x < P" by auto
      with Cons show ?thesis by simp
    qed
    show ?thesis
    proof (cases "starts_with (fst e) P")
      case True
      with False Cons.IH [OF srt] nodrop show ?thesis by simp
    next
      case nsw: False
      have "\<not> starts_with (fst x) P" if "x \<in> set pm" for x
      proof
        assume "starts_with (fst x) P"
        moreover from gt that have "fst e \<le> fst x" by auto
        ultimately have "starts_with (fst e) P" using ge between_prefix by blast
        with nsw show False by simp
      qed
      then have "filter (\<lambda>e. starts_with (fst e) P) pm = []"
        by (simp add: filter_empty_conv)
      with False nsw show ?thesis by simp
    qed
  qed
qed

section \<open>The table and the enumeration\<close>

lemma map_find_insert:
  "map_find pm k = None \<Longrightarrow>
   map_find (map_insert k r pm) k' = (if k' = k then Some r else map_find pm k')"
  by (induction pm) (auto simp: map_find_def split: if_splits)

lemma map_find_assign:
  "map_find (map_assign k r pm) k' =
     (if k' = k \<and> map_find pm k \<noteq> None then Some r else map_find pm k')"
  by (induction pm) (auto simp: map_find_def)

lemma keys_map_assign [simp]: "map fst (map_assign k r pm) = map fst pm"
  by (induction pm) auto

lemma set_map_insert [simp]: "set (map_insert k r pm) = insert (k, r) (set pm)"
  by (induction k r pm rule: map_insert.induct) auto

lemma map_find_None_iff: "map_find pm k = None \<longleftrightarrow> k \<notin> fst ` set pm"
  by (simp add: map_find_def map_of_eq_None_iff)

lemma propmap_ok_insert:
  "propmap_ok pm \<Longrightarrow> map_find pm k = None \<Longrightarrow> propmap_ok (map_insert k r pm)"
proof (induction pm)
  case Nil
  then show ?case by (simp add: propmap_ok_def)
next
  case (Cons e pm)
  obtain k' r' where e: "e = (k', r')" by (cases e)
  from Cons.prems(2) e have ne: "k \<noteq> k'" and absent: "map_find pm k = None"
    by (auto simp: map_find_def split: if_splits)
  from Cons.prems(1) have ok: "propmap_ok pm" and lt: "\<forall>x \<in> set pm. k' < fst x"
    by (auto simp: propmap_ok_def e)
  show ?case
  proof (cases "k < k'")
    case True
    with Cons.prems(1) e show ?thesis
      by (auto simp: propmap_ok_def)
  next
    case False
    with ne have "k' < k" by auto
    with False e lt Cons.IH [OF ok absent] show ?thesis
      by (auto simp: propmap_ok_def)
  qed
qed

lemma propmap_ok_assign [simp]: "propmap_ok (map_assign k r pm) = propmap_ok pm"
  by (simp add: propmap_ok_def)

lemma propmap_ok_index: "propmap_ok pm \<Longrightarrow> propmap_ok (map_index pd0 k pm)"
  by (auto simp: map_index_def propmap_ok_insert split: option.splits)

lemma map_find_index:
  "map_find (map_index pd0 k pm) k' =
     (if k' = k then Some (case map_find pm k of None \<Rightarrow> Record_new pd0 | Some r \<Rightarrow> r)
      else map_find pm k')"
  by (auto simp: map_index_def map_find_insert split: option.splits)

lemma map_find_mem: "propmap_ok pm \<Longrightarrow> map_find pm k = Some r \<longleftrightarrow> (k, r) \<in> set pm"
proof -
  assume "propmap_ok pm"
  then have "distinct (map fst pm)"
    unfolding propmap_ok_def by (simp add: strict_sorted_iff)
  then show ?thesis by (simp add: map_find_def)
qed

lemma getRecord_fst:
  "fst (PTree_getRecord pd0 key t) =
     (case map_find (propMap t) key of None \<Rightarrow> Record_new pd0 | Some r \<Rightarrow> r)"
  by (simp add: PTree_getRecord_def map_find_index)

lemma getRecord_find:
  "map_find (propMap (snd (PTree_getRecord pd0 key t))) k' =
     (if k' = key then Some (fst (PTree_getRecord pd0 key t)) else map_find (propMap t) k')"
  by (simp add: PTree_getRecord_def map_find_index)

lemma getRecord_ok: "PTree_ok t \<Longrightarrow> PTree_ok (snd (PTree_getRecord pd0 key t))"
  by (simp add: PTree_getRecord_def Let_def PTree_ok_def propmap_ok_index)

lemma getRecord_present:
  "map_find (propMap t) key = Some r \<Longrightarrow> PTree_getRecord pd0 key t = (r, t)"
  by (simp add: PTree_getRecord_def map_index_def)

lemma putRecord_find:
  "map_find (propMap (PTree_putRecord key r t)) k' =
     (if k' = key \<and> map_find (propMap t) key \<noteq> None then Some r else map_find (propMap t) k')"
  by (simp add: PTree_putRecord_def map_find_assign)

lemma putRecord_ok [simp]: "PTree_ok (PTree_putRecord key r t) = PTree_ok t"
  by (simp add: PTree_putRecord_def PTree_ok_def)

lemma Ref_set_find:
  "map_find (propMap (Ref_set pd0 tr v path x t)) k' =
     (if k' = joinPaths (selfPath v) path
      then Some (set_as tr x (fst (PTree_getRecord pd0 (joinPaths (selfPath v) path) t)))
      else map_find (propMap t) k')"
  by (simp add: Ref_set_def Let_def split_beta putRecord_find getRecord_find)

lemma Ref_undefine_find:
  "map_find (propMap (Ref_undefine pd0 v path t)) k' =
     (if k' = joinPaths (selfPath v) path
      then Some (undefine (fst (PTree_getRecord pd0 (joinPaths (selfPath v) path) t)))
      else map_find (propMap t) k')"
  by (simp add: Ref_undefine_def Let_def split_beta putRecord_find getRecord_find)

lemma Ref_set_ok: "PTree_ok t \<Longrightarrow> PTree_ok (Ref_set pd0 tr v path x t)"
  by (simp add: Ref_set_def Let_def split_beta getRecord_ok)

lemma Ref_undefine_ok: "PTree_ok t \<Longrightarrow> PTree_ok (Ref_undefine pd0 v path t)"
  by (simp add: Ref_undefine_def Let_def split_beta getRecord_ok)

lemma lower_bound_Nil [simp]: "lower_bound [] pm = pm"
  by (cases pm) (simp_all add: lower_bound_def)

lemma listKeysRecursive_root:
  "selfPath v = [] \<Longrightarrow>
   listKeysRecursive v result wu t =
     Inr (result @ map fst (filter (\<lambda>e. wu \<or> defined (snd e)) (propMap t)))"
  by (simp add: listKeysRecursive_def scan_all_eq)

lemma listKeysRecursive_prefix:
  "selfPath v \<noteq> [] \<Longrightarrow> PTree_ok t \<Longrightarrow>
   listKeysRecursive v result wu t =
     Inr (result @ map (\<lambda>e. drop (length (selfPath v) + 1) (fst e))
            (filter (\<lambda>e. wu \<or> defined (snd e))
               (filter (\<lambda>e. starts_with (fst e) (selfPath v)) (propMap t))))"
  by (simp add: listKeysRecursive_def scan_prefix_eq lower_bound_def prefix_range PTree_ok_def propmap_ok_def)

lemma drop_joinPaths:
  "P \<noteq> [] \<Longrightarrow> drop (Suc (length P)) (joinPaths P p) = p"
  by (simp add: joinPaths_def)

lemma starts_with_joinPaths [simp]: "starts_with (joinPaths P p) P"
  by (simp add: joinPaths_def)

lemma listKeysRecursive_mem:
  assumes ok: "PTree_ok t" and f: "map_find (propMap t) (joinPaths (selfPath v) p) = Some r"
  shows "\<exists>ks. listKeysRecursive v [] True t = Inr ks \<and> p \<in> set ks"
proof -
  from ok f have mem: "(joinPaths (selfPath v) p, r) \<in> set (propMap t)"
    by (simp add: map_find_mem PTree_ok_def)
  show ?thesis
  proof (cases "selfPath v = []")
    case True
    with mem have "(p, r) \<in> set (propMap t)" by (simp add: joinPaths_def)
    then have "p \<in> fst ` set (propMap t)" by force
    with True show ?thesis by (simp add: listKeysRecursive_root)
  next
    case False
    from mem have "drop (length (selfPath v) + 1) (fst (joinPaths (selfPath v) p, r))
       \<in> (\<lambda>e. drop (length (selfPath v) + 1) (fst e)) ` {e \<in> set (propMap t). starts_with (fst e) (selfPath v)}"
      by (intro imageI) simp
    with False ok show ?thesis
      by (simp add: listKeysRecursive_prefix drop_joinPaths)
  qed
qed

text \<open>
  \<open>listKeys\<close> maps the recursive result to first segments and drops a segment that
  equals the one before it, starting from the empty string.
\<close>

lemma listKeys_loop_eq:
  "listKeys_loop allKeys prevKey result =
     result @ tl (remdups_adj (prevKey # map splitFirst allKeys))"
  by (induction allKeys arbitrary: prevKey result) (simp_all add: Let_def)

lemma listKeys_eq:
  "listKeysRecursive v [] wu t = Inr allKeys \<Longrightarrow>
   listKeys v result wu t = Inr (result @ tl (remdups_adj ([] # map splitFirst allKeys)))"
  by (simp add: listKeys_def listKeys_loop_eq)

lemma listKeysRecursive_total: "\<exists>ks. listKeysRecursive v result wu t = Inr ks"
  by (simp add: listKeysRecursive_def Let_def scan_prefix_eq)

lemma append_less_append: "(p :: 'a :: linorder list) @ x < p @ y \<longleftrightarrow> x < y"
  by (induction p) auto

lemma append_le_append: "(p :: 'a :: linorder list) @ x \<le> p @ y \<longleftrightarrow> x \<le> y"
  by (induction p) auto

text \<open>
  The enumeration of a subtree when every key that starts with the prefix is the prefix
  itself or continues with the separator.
\<close>

lemma listKeysRecursive_subtree:
  assumes ne: "selfPath v \<noteq> []" and ok: "PTree_ok t"
    and sep: "\<forall>e \<in> set (propMap t). starts_with (fst e) (selfPath v) \<longrightarrow>
               fst e = selfPath v \<or> starts_with (fst e) (selfPath v @ ''.'')"
  shows "listKeysRecursive v result wu t =
     Inr (result @ map (\<lambda>e. drop (length (selfPath v) + 1) (fst e))
       (filter (\<lambda>e. (fst e = selfPath v \<or> starts_with (fst e) (selfPath v @ ''.'')) \<and>
                     (wu \<or> defined (snd e))) (propMap t)))"
proof -
  have "filter (\<lambda>e. wu \<or> defined (snd e))
           (filter (\<lambda>e. starts_with (fst e) (selfPath v)) (propMap t)) =
        filter (\<lambda>e. (fst e = selfPath v \<or> starts_with (fst e) (selfPath v @ ''.'')) \<and>
                     (wu \<or> defined (snd e))) (propMap t)"
    unfolding filter_filter
  proof (rule filter_cong [OF refl])
    fix e assume "e \<in> set (propMap t)"
    with sep have "starts_with (fst e) (selfPath v) \<longrightarrow>
        fst e = selfPath v \<or> starts_with (fst e) (selfPath v @ ''.'')" by blast
    moreover have "starts_with (fst e) (selfPath v @ ''.'') \<Longrightarrow> starts_with (fst e) (selfPath v)"
      by (auto simp: starts_with_iff)
    ultimately show "(starts_with (fst e) (selfPath v) \<and> (wu \<or> defined (snd e))) =
        ((fst e = selfPath v \<or> starts_with (fst e) (selfPath v @ ''.'')) \<and> (wu \<or> defined (snd e)))"
      by auto
  qed
  with ne ok show ?thesis
    by (simp add: listKeysRecursive_prefix)
qed

lemma listKeysRecursive_subtree_sorted:
  assumes ne: "selfPath v \<noteq> []" and ok: "PTree_ok t"
    and sep: "\<forall>e \<in> set (propMap t). starts_with (fst e) (selfPath v) \<longrightarrow>
               fst e = selfPath v \<or> starts_with (fst e) (selfPath v @ ''.'')"
  shows "\<exists>ks. listKeysRecursive v [] wu t = Inr ks \<and> sorted ks"
proof -
  let ?P = "selfPath v"
  let ?f = "\<lambda>k. drop (length ?P + 1) k"
  let ?Q = "\<lambda>e. (fst e = ?P \<or> starts_with (fst e) (?P @ ''.'')) \<and> (wu \<or> defined (snd e))"
  have mono: "?f k1 \<le> ?f k2"
    if "k1 = ?P \<or> starts_with k1 (?P @ ''.'')" "k2 = ?P \<or> starts_with k2 (?P @ ''.'')" "k1 < k2"
    for k1 k2
  proof (cases "k1 = ?P")
    case True
    then show ?thesis by simp
  next
    case False
    with that(1) obtain r1 where k1: "k1 = ?P @ ''.'' @ r1"
      by (auto simp: starts_with_iff)
    from that(3) k1 have "k2 \<noteq> ?P"
      using not_append_less by blast
    with that(2) obtain r2 where k2: "k2 = ?P @ ''.'' @ r2"
      by (auto simp: starts_with_iff)
    from that(3) k1 k2 have "r1 < r2"
      by (simp add: append_less_append)
    with k1 k2 show ?thesis by simp
  qed
  from ok have "sorted_wrt (<) (map fst (propMap t))"
    by (simp add: PTree_ok_def propmap_ok_def)
  then have "sorted_wrt (\<lambda>x y. fst x < fst y) (filter ?Q (propMap t))"
    by (simp add: sorted_wrt_map sorted_wrt_filter)
  then have "sorted_wrt (\<lambda>x y. ?f (fst x) \<le> ?f (fst y)) (filter ?Q (propMap t))"
    by (rule sorted_wrt_mono_rel [rotated]) (use mono in auto)
  then have "sorted (map (\<lambda>e. ?f (fst e)) (filter ?Q (propMap t)))"
    by (simp add: sorted_wrt_map)
  with listKeysRecursive_subtree [OF ne ok sep, of "[]" wu] show ?thesis
    by simp
qed

section \<open>Reads and writes through a view\<close>

lemmas store_defs = Ref_set_def Ref_undefine_def root_def PTree_new_def joinPaths_def
  PTree_getRecord_def PTree_putRecord_def map_index_def map_find_def Record_new_def
  set_as_def undefine_def get_value_or_def string_tr_def getSubtree_def getSubtreeImpl_def

lemmas list_defs = listKeys_def listKeysRecursive_def lower_bound_def isDefined_def
  splitFirst_def substr_def

lemma getOptional_eq:
  "getOptional pd0 tr v path gd t =
     (get_as tr gd (fst (PTree_getRecord pd0 (joinPaths (selfPath v) path) t)),
      snd (PTree_getRecord pd0 (joinPaths (selfPath v) path) t))"
  by (simp add: getOptional_def ConstRef_getRecord_def split_beta)

lemma get_as_undefined: "\<not> defined r \<Longrightarrow> get_as tr gd r = (None, map_option (\<lambda>b. False) gd)"
  by (cases gd) (simp_all add: get_as_def)

lemma get_as_defined:
  "defined r \<Longrightarrow> get_as tr gd r = (get_value tr (rvalue r), map_option (\<lambda>b. True) gd)"
  by (cases gd) (simp_all add: get_as_def)

lemma set_as_None:
  "put_value tr d = None \<Longrightarrow>
   defined (set_as tr d r) = False \<and> rvalue (set_as tr d r) = ''<invalid>''"
  by (simp add: set_as_def get_value_or_def)

text \<open>
  What the no-default \<open>get\<close> returns, by the record at the joined path: the error for an
  undefined record, the error for a stored string that does not decode, the decoded value
  otherwise. The name in both errors is \<open>selfPath + "." + path\<close>.
\<close>

lemma get_eq:
  "get pd0 tr v path t =
     (let r = fst (PTree_getRecord pd0 (joinPaths (selfPath v) path) t);
          t' = snd (PTree_getRecord pd0 (joinPaths (selfPath v) path) t)
      in if \<not> defined r
         then (Inl (PropsError (selfPath v @ ''.'' @ path) ''Undefined property: ''), t')
         else case get_value tr (rvalue r) of
                None \<Rightarrow> (Inl (PropsError (selfPath v @ ''.'' @ path) ''Bad format ''), t')
              | Some x \<Rightarrow> (Inr x, t'))"
  by (simp add: get_def getOptional_eq get_as_def getSelfPath_def Let_def split: option.splits)

lemma get_error_name_joined:
  "selfPath v \<noteq> [] \<Longrightarrow> path \<noteq> [] \<Longrightarrow>
   selfPath v @ ''.'' @ path = joinPaths (selfPath v) path"
  by (simp add: joinPaths_def)

text \<open>Every operation keeps the table in strictly ascending key order.\<close>

lemma PTree_ok_new [simp]: "PTree_ok PTree_new"
  by (simp add: PTree_ok_def PTree_new_def propmap_ok_def)

lemma clear_ok: "PTree_ok (clear t)"
  by (simp add: clear_def PTree_ok_def propmap_ok_def)

lemma getOptional_ok: "PTree_ok t \<Longrightarrow> PTree_ok (snd (getOptional pd0 tr v path gd t))"
  by (simp add: getOptional_eq getRecord_ok)

lemma get_ok: "PTree_ok t \<Longrightarrow> PTree_ok (snd (get pd0 tr v path t))"
  by (simp add: get_eq Let_def getRecord_ok split: option.splits)

lemma get_default_ok: "PTree_ok t \<Longrightarrow> PTree_ok (snd (get_default pd0 tr v path dflt t))"
  by (simp add: get_default_def ConstRef_getRecord_def split_beta getRecord_ok)

lemma setRecord_ok: "PTree_ok t \<Longrightarrow> PTree_ok (setRecord pd0 v path r t)"
  by (simp add: setRecord_def Let_def split_beta getRecord_ok)

lemma Ref_setValue_ok: "PTree_ok t \<Longrightarrow> PTree_ok (Ref_setValue pd0 tr v d t)"
  by (simp add: Ref_setValue_def Let_def split_beta getRecord_ok)

section \<open>The properties of the specification\<close>

subsection \<open>Path join\<close>

text \<open>
  C7. \<open>joinPaths a "" = a\<close> and \<open>joinPaths "" b = b\<close> for all strings, and
  \<open>joinPaths a b = a + "." + b\<close> when neither is empty; so with an empty side the result
  is the other side unchanged, with no separator added.
\<close>

theorem joinPaths_identities:
  "joinPaths a [] = a \<and> joinPaths [] b = b \<and>
   (a \<noteq> [] \<longrightarrow> b \<noteq> [] \<longrightarrow> joinPaths a b = a @ ''.'' @ b) \<and>
   (a = [] \<or> b = [] \<longrightarrow> joinPaths a b = a @ b)"
  by (simp add: joinPaths_def)

theorem joinPaths_identities_witness:
  "joinPaths ''a'' [] = ''a'' \<and> joinPaths [] ''b'' = ''b'' \<and> joinPaths ''a'' ''b'' = ''a.b''"
  using joinPaths_identities [of "''a''" "''b''"] by simp

subsection \<open>A write whose encoding fails\<close>

text \<open>
  C9. Whatever the record held, \<open>set_as\<close> with a value that \<open>put_value\<close> does not encode
  leaves it with \<open>defined = false\<close> and \<open>value = "<invalid>"\<close>: the string stored before
  is overwritten, the record is not reported as defined, and nothing else changes.
\<close>

theorem set_as_failure_clobbers:
  "put_value tr d = None \<Longrightarrow>
   set_as tr d r = r\<lparr>defined := False, rvalue := ''<invalid>''\<rparr> \<and>
   isDefined (set_as tr d r) = False \<and>
   getValue (set_as tr d r) = ''<invalid>''"
  by (simp add: set_as_def get_value_or_def isDefined_def getValue_def)

theorem set_as_failure_clobbers_witness:
  "put_value failing_tr ''v'' = None \<and>
   isDefined (setValue ''old'' (Record_new ())) \<and>
   getValue (setValue ''old'' (Record_new ())) = ''old'' \<and>
   isDefined (set_as failing_tr ''v'' (setValue ''old'' (Record_new ()))) = False \<and>
   getValue (set_as failing_tr ''v'' (setValue ''old'' (Record_new ()))) = ''<invalid>''"
  using set_as_failure_clobbers [of failing_tr "''v''" "setValue ''old'' (Record_new ())"]
  by (simp add: failing_tr_def setValue_def Record_new_def isDefined_def getValue_def)

text \<open>
  C1 asks for \<open>defined = true\<close> after a failed encoding. On a new record, and through
  \<open>set\<close> on a new store, the record is left with \<open>defined = false\<close>.
\<close>

theorem set_as_failure_counterexample:
  "put_value failing_tr ''v'' = None \<and>
   defined (set_as failing_tr ''v'' (Record_new ())) \<noteq> True \<and>
   map_find (propMap (Ref_set () failing_tr (root ''r'') ''x'' ''v'' PTree_new)) ''x''
     = Some \<lparr>rvalue = ''<invalid>'', defined = False, pathData = ()\<rparr>"
  by (simp add: failing_tr_def set_as_def get_value_or_def Record_new_def Ref_set_def root_def
      PTree_new_def joinPaths_def PTree_getRecord_def PTree_putRecord_def map_index_def
      map_find_def)

text \<open>
  C1, as the code has it. For every record and every value whose encoding fails,
  \<open>set_as\<close> leaves the record with \<open>defined = false\<close> and the placeholder
  \<open>"<invalid>"\<close> as its value, and so does \<open>set\<close> for the record at the joined path. The
  next \<open>getOptional\<close> of that path, for any type, returns empty and reports the record as
  not defined: the failed write reads like a record that was never set, and the placeholder
  shows only in the stored string.
\<close>

theorem set_failure_reads_as_undefined:
  assumes "put_value tr d = None"
  shows "defined (set_as tr d r) = False \<and> rvalue (set_as tr d r) = ''<invalid>'' \<and>
         (\<exists>r'. map_find (propMap (Ref_set pd0 tr v path d t)) (joinPaths (selfPath v) path) = Some r'
               \<and> defined r' = False \<and> rvalue r' = ''<invalid>'') \<and>
         fst (getOptional pd0 tr2 v path gd (Ref_set pd0 tr v path d t))
           = (None, map_option (\<lambda>b. False) gd)"
proof -
  let ?key = "joinPaths (selfPath v) path"
  let ?t1 = "Ref_set pd0 tr v path d t"
  let ?r0 = "fst (PTree_getRecord pd0 ?key t)"
  have rec: "defined (set_as tr d ?r0) = False \<and> rvalue (set_as tr d ?r0) = ''<invalid>''"
    using assms by (rule set_as_None)
  have f: "map_find (propMap ?t1) ?key = Some (set_as tr d ?r0)"
    by (simp add: Ref_set_find)
  then have "fst (PTree_getRecord pd0 ?key ?t1) = set_as tr d ?r0"
    by (simp add: getRecord_fst)
  with rec have "fst (getOptional pd0 tr2 v path gd ?t1) = (None, map_option (\<lambda>b. False) gd)"
    by (simp add: getOptional_eq get_as_undefined)
  with rec f set_as_None [OF assms, of r] show ?thesis by simp
qed

theorem set_failure_reads_as_undefined_witness:
  "put_value failing_tr ''v'' = None \<and>
   fst (getOptional () string_tr (root ''r'') ''x'' (Some True)
          (Ref_set () failing_tr (root ''r'') ''x'' ''v'' PTree_new)) = (None, Some False)"
  using set_failure_reads_as_undefined
    [of failing_tr "''v''" "Record_new ()" "()" "root ''r''" "''x''" PTree_new string_tr "Some True"]
  by (simp add: failing_tr_def)

subsection \<open>The no-default read\<close>

text \<open>
  C2 asks that the error of \<open>get\<close> carries the view's \<open>selfPath\<close> joined with the path.
  The code builds the name as \<open>getSelfPath() + "." + path\<close>, not with \<open>joinPaths\<close>: on
  the root view of a new store, \<open>get("x")\<close> fails with the name \<open>".x"\<close>, while the
  joined path, where the record was looked up and created, is \<open>"x"\<close>.
\<close>

theorem get_error_name_at_root:
  "get () string_tr (root ''r'') ''x'' PTree_new =
     (Inl (PropsErr ''.x'' ''Undefined property: .x''),
      \<lparr>propMap = [(''x'', Record_new ())]\<rparr>) \<and>
   joinPaths (selfPath (root ''r'')) ''x'' = ''x''"
  by (simp add: get_def getOptional_def ConstRef_getRecord_def get_as_def PropsError_def
      getSelfPath_def store_defs)

subsection \<open>Round trip\<close>

text \<open>
  C5. When the codec encodes \<open>d\<close> and decodes the result back to \<open>d\<close>, then after
  \<open>set(p, d)\<close> on a write view, \<open>get\<close> on any view and path that join to the same full
  path (the same view and \<open>p\<close> among them) returns \<open>d\<close>, and leaves the store as it is.
\<close>

theorem set_get_roundtrip:
  assumes "put_value tr d = Some s" and "get_value tr s = Some d"
    and "joinPaths (selfPath rv) q = joinPaths (selfPath wv) p"
  shows "get pd0 tr rv q (Ref_set pd0 tr wv p d t) = (Inr d, Ref_set pd0 tr wv p d t)"
proof -
  let ?key = "joinPaths (selfPath wv) p"
  let ?t1 = "Ref_set pd0 tr wv p d t"
  let ?r1 = "set_as tr d (fst (PTree_getRecord pd0 ?key t))"
  have "map_find (propMap ?t1) ?key = Some ?r1"
    by (simp add: Ref_set_find)
  then have g: "PTree_getRecord pd0 ?key ?t1 = (?r1, ?t1)"
    by (rule getRecord_present)
  have "defined ?r1" "rvalue ?r1 = s"
    using assms(1) by (simp_all add: set_as_def get_value_or_def)
  with g assms(2,3) show ?thesis
    by (simp add: get_eq)
qed

theorem set_get_roundtrip_witness:
  "put_value string_tr ''abc'' = Some ''abc'' \<and> get_value string_tr ''abc'' = Some ''abc'' \<and>
   joinPaths (selfPath (root ''r'')) ''nested.name''
     = joinPaths (selfPath (getSubtree (root ''r'') ''nested'')) ''name'' \<and>
   fst (get () string_tr (root ''r'') ''nested.name''
          (Ref_set () string_tr (getSubtree (root ''r'') ''nested'') ''name'' ''abc'' PTree_new))
     = Inr ''abc''"
  using set_get_roundtrip [of string_tr "''abc''" "''abc''" "root ''r''" "''nested.name''"
      "getSubtree (root ''r'') ''nested''" "''name''" "()" PTree_new]
  by (simp add: string_tr_def root_def getSubtree_def getSubtreeImpl_def joinPaths_def)

subsection \<open>Materialization on access\<close>

text \<open>
  C4. On a new store, \<open>getOptional\<close> of a path returns empty (and reports the record as
  not defined), and leaves a table with one record, at the joined path, with
  \<open>defined = false\<close>. \<open>listKeysRecursive\<close> of the same view then yields exactly that
  path with \<open>withUndefined = true\<close>, and nothing with \<open>withUndefined = false\<close>. This
  holds for every view and path, so for the root view and \<open>"x"\<close>.
\<close>

theorem getOptional_materializes:
  "getOptional pd0 tr v p gd PTree_new =
     ((None, map_option (\<lambda>b. False) gd),
      \<lparr>propMap = [(joinPaths (selfPath v) p, Record_new pd0)]\<rparr>) \<and>
   defined (Record_new pd0) = False \<and>
   listKeysRecursive v [] True (snd (getOptional pd0 tr v p gd PTree_new)) = Inr [p] \<and>
   listKeysRecursive v [] False (snd (getOptional pd0 tr v p gd PTree_new)) = Inr []"
proof -
  let ?key = "joinPaths (selfPath v) p"
  let ?t1 = "\<lparr>propMap = [(?key, Record_new pd0)]\<rparr>"
  have g: "getOptional pd0 tr v p gd PTree_new = ((None, map_option (\<lambda>b. False) gd), ?t1)"
    by (simp add: getOptional_eq PTree_getRecord_def map_index_def map_find_def PTree_new_def
        get_as_undefined Record_new_def)
  have ok: "PTree_ok ?t1"
    by (simp add: PTree_ok_def propmap_ok_def)
  have l1: "listKeysRecursive v [] wu ?t1 = Inr (if wu then [p] else [])" for wu
  proof (cases "selfPath v = []")
    case True
    then show ?thesis
      by (simp add: listKeysRecursive_root Record_new_def joinPaths_def)
  next
    case False
    with ok show ?thesis
      by (simp add: listKeysRecursive_prefix Record_new_def drop_joinPaths)
  qed
  from g l1 [of True] l1 [of False] show ?thesis
    by (simp add: Record_new_def)
qed

theorem getOptional_materializes_x:
  "fst (getOptional () string_tr (root ''r'') ''x'' None PTree_new) = (None, None) \<and>
   listKeysRecursive (root ''r'') [] True
     (snd (getOptional () string_tr (root ''r'') ''x'' None PTree_new)) = Inr [''x''] \<and>
   listKeysRecursive (root ''r'') [] False
     (snd (getOptional () string_tr (root ''r'') ''x'' None PTree_new)) = Inr []"
  using getOptional_materializes [of "()" string_tr "root ''r''" "''x''" None]
  by (simp add: getOptional_eq get_as_def store_defs list_defs)

text \<open>
  C10. When the table has no record at the joined path, \<open>undefine(p)\<close> on a write view
  creates one there, default-constructed and so with \<open>defined = false\<close>, and \<open>p\<close> is
  among the keys that \<open>listKeysRecursive\<close> of that view yields with
  \<open>withUndefined = true\<close>.
\<close>

theorem undefine_materializes:
  assumes "PTree_ok t" and "map_find (propMap t) (joinPaths (selfPath v) p) = None"
  shows "map_find (propMap (Ref_undefine pd0 v p t)) (joinPaths (selfPath v) p)
           = Some (Record_new pd0) \<and>
         defined (Record_new pd0) = False \<and>
         (\<exists>ks. listKeysRecursive v [] True (Ref_undefine pd0 v p t) = Inr ks \<and> p \<in> set ks)"
proof -
  let ?t1 = "Ref_undefine pd0 v p t"
  have f: "map_find (propMap ?t1) (joinPaths (selfPath v) p) = Some (Record_new pd0)"
    using assms(2) by (simp add: Ref_undefine_find getRecord_fst undefine_def Record_new_def)
  have "PTree_ok ?t1"
    using assms(1) by (rule Ref_undefine_ok)
  then have "\<exists>ks. listKeysRecursive v [] True ?t1 = Inr ks \<and> p \<in> set ks"
    using f by (rule listKeysRecursive_mem)
  with f show ?thesis by (simp add: Record_new_def)
qed

theorem undefine_materializes_witness:
  "PTree_ok (Ref_set () string_tr (root ''r'') ''a'' ''1'' PTree_new) \<and>
   map_find (propMap (Ref_set () string_tr (root ''r'') ''a'' ''1'' PTree_new)) ''a.x'' = None \<and>
   map_find (propMap (Ref_undefine () (getSubtree (root ''r'') ''a'') ''x''
       (Ref_set () string_tr (root ''r'') ''a'' ''1'' PTree_new))) ''a.x''
     = Some \<lparr>rvalue = [], defined = False, pathData = ()\<rparr> \<and>
   listKeysRecursive (getSubtree (root ''r'') ''a'') [] True
     (Ref_undefine () (getSubtree (root ''r'') ''a'') ''x''
       (Ref_set () string_tr (root ''r'') ''a'' ''1'' PTree_new)) = Inr [[], ''x'']"
  using undefine_materializes [of "Ref_set () string_tr (root ''r'') ''a'' ''1'' PTree_new"
      "getSubtree (root ''r'') ''a''" "''x''" "()"]
  by (simp add: store_defs list_defs PTree_ok_def propmap_ok_def)

subsection \<open>Undefine\<close>

text \<open>
  C6. After \<open>set(p, d)\<close> and \<open>undefine(p)\<close> on a view, \<open>getOptional(p)\<close> returns empty,
  reports the record as not defined and leaves the store as it is; the record at the joined
  path is the one that \<open>set\<close> left, with only \<open>defined\<close> cleared, so its string and its
  \<open>pathData\<close> are unchanged; and \<open>p\<close> is among the keys that \<open>listKeysRecursive\<close> of
  the view yields with \<open>withUndefined = true\<close>.
\<close>

theorem undefine_is_soft:
  assumes "PTree_ok t"
  shows "getOptional pd0 tr2 v p gd (Ref_undefine pd0 v p (Ref_set pd0 tr v p d t))
           = ((None, map_option (\<lambda>b. False) gd), Ref_undefine pd0 v p (Ref_set pd0 tr v p d t)) \<and>
         (\<exists>r1. map_find (propMap (Ref_set pd0 tr v p d t)) (joinPaths (selfPath v) p) = Some r1 \<and>
               map_find (propMap (Ref_undefine pd0 v p (Ref_set pd0 tr v p d t)))
                 (joinPaths (selfPath v) p) = Some (r1\<lparr>defined := False\<rparr>)) \<and>
         (\<exists>ks. listKeysRecursive v [] True (Ref_undefine pd0 v p (Ref_set pd0 tr v p d t)) = Inr ks
               \<and> p \<in> set ks)"
proof -
  let ?key = "joinPaths (selfPath v) p"
  let ?t1 = "Ref_set pd0 tr v p d t"
  let ?t2 = "Ref_undefine pd0 v p ?t1"
  let ?r1 = "set_as tr d (fst (PTree_getRecord pd0 ?key t))"
  have f1: "map_find (propMap ?t1) ?key = Some ?r1"
    by (simp add: Ref_set_find)
  then have f2: "map_find (propMap ?t2) ?key = Some (?r1\<lparr>defined := False\<rparr>)"
    by (simp add: Ref_undefine_find getRecord_fst undefine_def)
  then have "PTree_getRecord pd0 ?key ?t2 = (?r1\<lparr>defined := False\<rparr>, ?t2)"
    by (rule getRecord_present)
  then have "getOptional pd0 tr2 v p gd ?t2 = ((None, map_option (\<lambda>b. False) gd), ?t2)"
    by (simp add: getOptional_eq get_as_undefined)
  moreover have "PTree_ok ?t2"
    using assms by (simp add: Ref_set_ok Ref_undefine_ok)
  then have "\<exists>ks. listKeysRecursive v [] True ?t2 = Inr ks \<and> p \<in> set ks"
    using f2 by (rule listKeysRecursive_mem)
  ultimately show ?thesis using f1 f2 by simp
qed

theorem undefine_is_soft_witness:
  "PTree_ok (PTree_new :: unit PTree) \<and>
   fst (getOptional () string_tr (root ''r'') ''x'' (Some True)
         (Ref_undefine () (root ''r'') ''x'' (Ref_set () string_tr (root ''r'') ''x'' ''v'' PTree_new)))
     = (None, Some False) \<and>
   map_find (propMap (Ref_undefine () (root ''r'') ''x''
       (Ref_set () string_tr (root ''r'') ''x'' ''v'' PTree_new))) ''x''
     = Some \<lparr>rvalue = ''v'', defined = False, pathData = ()\<rparr> \<and>
   listKeysRecursive (root ''r'') [] True (Ref_undefine () (root ''r'') ''x''
       (Ref_set () string_tr (root ''r'') ''x'' ''v'' PTree_new)) = Inr [''x'']"
  using undefine_is_soft [of PTree_new "()" string_tr "root ''r''" "''x''" "Some True" string_tr "''v''"]
  by (simp add: store_defs list_defs PTree_ok_def propmap_ok_def)

subsection \<open>Key enumeration\<close>

text \<open>
  C3 asks that a view with a non-empty \<open>selfPath\<close> yields exactly the entries of its
  subtree, in ascending order. The loop of \<open>listKeysRecursive\<close> takes every key that
  starts with \<open>selfPath\<close> and removes \<open>selfPath.size() + 1\<close> characters from it,
  whatever the character after the prefix is. With records at \<open>"a.b"\<close> and \<open>"ab"\<close>, the
  view at \<open>"a"\<close> yields \<open>"b"\<close> and then \<open>""\<close>: the second is the key \<open>"ab"\<close>, which is
  not in the subtree of \<open>"a"\<close>, and the two are not in ascending order.
\<close>

theorem listKeysRecursive_foreign_prefix:
  "propMap (Ref_set () string_tr (root ''r'') ''ab'' ''1''
      (Ref_set () string_tr (root ''r'') ''a.b'' ''1'' PTree_new))
     = [(''a.b'', \<lparr>rvalue = ''1'', defined = True, pathData = ()\<rparr>),
        (''ab'', \<lparr>rvalue = ''1'', defined = True, pathData = ()\<rparr>)] \<and>
   listKeysRecursive (getSubtree (root ''r'') ''a'') [] False
     (Ref_set () string_tr (root ''r'') ''ab'' ''1''
        (Ref_set () string_tr (root ''r'') ''a.b'' ''1'' PTree_new))
     = Inr [''b'', []]"
  by (simp add: store_defs list_defs)

text \<open>
  C8 asks that \<open>listKeys\<close> yields each immediate child once, in ascending order. The loop
  of \<open>listKeys\<close> drops a first segment only when it equals the one just before it, and
  keys that share a first segment are not always next to each other in the table: \<open>'-'\<close>
  sorts before \<open>'.'\<close>, so \<open>"a-b"\<close> lies between \<open>"a"\<close> and \<open>"a.c"\<close>. With records at
  these three paths the root view yields \<open>"a"\<close>, \<open>"a-b"\<close>, \<open>"a"\<close>.
\<close>

theorem listKeys_repeats_child:
  "listKeysRecursive (root ''r'') [] False
     (Ref_set () string_tr (root ''r'') ''a.c'' ''1''
       (Ref_set () string_tr (root ''r'') ''a-b'' ''1''
         (Ref_set () string_tr (root ''r'') ''a'' ''1'' PTree_new)))
     = Inr [''a'', ''a-b'', ''a.c''] \<and>
   listKeys (root ''r'') [] False
     (Ref_set () string_tr (root ''r'') ''a.c'' ''1''
       (Ref_set () string_tr (root ''r'') ''a-b'' ''1''
         (Ref_set () string_tr (root ''r'') ''a'' ''1'' PTree_new)))
     = Inr [''a'', ''a-b'', ''a'']"
  by (simp add: store_defs list_defs Let_def)

end
